theory Spec2Isabelle
  imports Complex_Main
begin

section \<open>The bitcoind plugin of desw: data model\<close>

text \<open>
  The module \<^verbatim>\<open>desw_bitcoin.py\<close> connects a bitcoind daemon (JSON-RPC) with the
  ledger store of desw (SQLAlchemy session \<^verbatim>\<open>ses\<close>, models \<^verbatim>\<open>wm.Credit\<close>,
  \<^verbatim>\<open>wm.Address\<close>, \<^verbatim>\<open>wm.HWBalance\<close>). The tables are lists of rows in table order;
  a row is identified by its position, as a persistent object is by its primary key.
  Record fields carry a prefix, since a field name is a constant of the theory
  (\<open>c_ref_id\<close> is \<^verbatim>\<open>Credit.ref_id\<close>, \<open>hw_total\<close> is \<^verbatim>\<open>HWBalance.total\<close>, and so on).

  Amounts are the decimal numbers the RPC client parses and the store keeps; their
  arithmetic is exact, so they are rational numbers here.
\<close>

type_synonym amount = rat

record credit =
  c_amount :: amount
  c_address :: string
  c_currency :: string
  c_network :: string
  c_transaction_state :: string
  c_reference :: string
  c_ref_id :: string
  c_user_id :: nat

record address_row =
  a_address :: string
  a_user_id :: nat

record hwbalance =
  hw_available :: amount
  hw_total :: amount
  hw_currency :: string
  hw_network :: string
  hw_time :: nat

text \<open>The daemon's answers: one entry of \<^verbatim>\<open>txd['details']\<close>, a transaction, \<^verbatim>\<open>getinfo()\<close>.\<close>

record put =
  put_address :: string
  put_amount :: amount
  put_category :: string

record txd =
  txd_confirmations :: int
  txd_details :: "put list"
  txd_txid :: string

record info =
  info_blocks :: int
  info_balance :: amount

text \<open>
  Exceptions. \<open>exn\<close> are subclasses of Python's \<^verbatim>\<open>Exception\<close>, which an
  \<^verbatim>\<open>except Exception\<close> clause catches; \<^verbatim>\<open>SystemExit\<close> (raised by argparse) is not.
\<close>

datatype exn = JSONRPCException | AttributeError | IndexError | EncodingError

datatype error = Exn exn | SystemExit

text \<open>
  What the module does to the outside, in the order it happens: RPC calls to the daemon,
  the call of the ledger's \<^verbatim>\<open>confirm_send\<close>, logger calls, and what the session is told
  (\<open>SesCommit ok\<close> is a \<^verbatim>\<open>ses.commit()\<close> and whether it succeeded).
\<close>

datatype event =
    RpcGetTransaction string
  | RpcGetInfo
  | RpcGetBalance
  | RpcSendToAddress string amount
  | ConfirmSend string amount string
  | LogInfo string
  | LogWarning string
  | LogException
  | SesCommit bool
  | SesRollback
  | SesFlush

text \<open>
  The environment of one call: the daemon behind the RPC client (\<open>None\<close> is a failed
  call, which raises \<^verbatim>\<open>JSONRPCException\<close>), pycoin's \<^verbatim>\<open>is_address_valid\<close> (it returns
  a netcode or \<^verbatim>\<open>None\<close>, or raises), and the configuration values \<^verbatim>\<open>CURRENCIES\<close> and
  \<^verbatim>\<open>CONFS\<close> read from \<^verbatim>\<open>CFG\<close>.
\<close>

record env =
  gettransaction :: "string \<Rightarrow> txd option"
  getinfo :: "info option"
  getbalance :: "amount option"
  sendtoaddress :: "string \<Rightarrow> amount \<Rightarrow> string option"
  is_address_valid :: "string \<Rightarrow> string list \<Rightarrow> exn + string option"
  CURRENCIES :: "string list"
  CONFS :: int

text \<open>
  The state: the three tables of the store (committed rows), the module's global
  \<^verbatim>\<open>lastblock\<close>, the outcomes of the commits still to come (\<open>True\<close> succeeds; when the
  list is used up a commit succeeds), the time the store stamps on a new row, and the
  trace of events.
\<close>

record db =
  credits :: "credit list"
  addresses :: "address_row list"
  hwbalances :: "hwbalance list"
  lastblock :: int
  commit_outcomes :: "bool list"
  now :: nat
  trace :: "event list"

section \<open>Constants and helpers\<close>

definition NETCODES :: "string list" where
  "NETCODES = [''BTC'', ''XTN'']"

definition NETWORK :: string where
  "NETWORK = ''Bitcoin''"

text \<open>\<^verbatim>\<open>str.lower()\<close> on ASCII letters.\<close>

definition lower_char :: "char \<Rightarrow> char" where
  "lower_char c =
     (let n = (of_char c :: nat) in if 65 \<le> n \<and> n \<le> 90 then char_of (n + 32) else c)"

definition lower :: "string \<Rightarrow> string" where
  "lower cs = map lower_char cs"

text \<open>\<^verbatim>\<open>"%s" % p\<close> for a non-negative integer \<open>p\<close>: its decimal digits.\<close>

fun str_nat :: "nat \<Rightarrow> string" where
  "str_nat n =
     (if n < 10 then [char_of (48 + n)]
      else str_nat (n div 10) @ [char_of (48 + n mod 10)])"

declare str_nat.simps [simp del]

text \<open>\<^verbatim>\<open>"%s:%s" % (txid, p)\<close>\<close>

definition ref_of :: "string \<Rightarrow> nat \<Rightarrow> string" where
  "ref_of txid p = txid @ '':'' @ str_nat p"

definition emit :: "event \<Rightarrow> db \<Rightarrow> db" where
  "emit ev s = s\<lparr>trace := trace s @ [ev]\<rparr>"

text \<open>
  \<^verbatim>\<open>ses.commit()\<close> with the changes pending in the session: the next outcome is
  consumed; on success the pending changes reach the tables, on failure the tables
  stay as they are (the caller's handler rolls the session back). The result says
  whether the commit succeeded.
\<close>

definition ses_commit :: "(db \<Rightarrow> db) \<Rightarrow> db \<Rightarrow> bool \<times> db" where
  "ses_commit pending s =
     (case commit_outcomes s of
        [] \<Rightarrow> (True, emit (SesCommit True) (pending s))
      | ok # rest \<Rightarrow>
          if ok then (True, emit (SesCommit True) (pending (s\<lparr>commit_outcomes := rest\<rparr>)))
          else (False, emit (SesCommit False) (s\<lparr>commit_outcomes := rest\<rparr>)))"

text \<open>
  \<^verbatim>\<open>ses.query(wm.HWBalance).filter(network == NETWORK.lower()).order_by(time.desc()).first()\<close>:
  the position of the row of this network with the greatest time, \<open>None\<close> when there is
  no such row. Among rows of equal time the source leaves the choice to the database;
  here it is the first in table order.
\<close>

fun latest_hwb :: "hwbalance list \<Rightarrow> nat option" where
  "latest_hwb [] = None"
| "latest_hwb (r # rs) =
     (case latest_hwb rs of
        None \<Rightarrow> if hw_network r = lower NETWORK then Some 0 else None
      | Some j \<Rightarrow>
          if hw_network r = lower NETWORK \<and> hw_time (rs ! j) \<le> hw_time r then Some 0
          else Some (Suc j))"

section \<open>The functions of the module\<close>

text \<open>
  \<^verbatim>\<open>validate_address(address, network=None)\<close>: the \<^verbatim>\<open>try\<close> catches every
  \<^verbatim>\<open>Exception\<close> of the decoder.
\<close>

definition validate_address :: "env \<Rightarrow> string \<Rightarrow> string option \<Rightarrow> error + bool" where
  "validate_address e address network =
     (case is_address_valid e address NETCODES of
        Inl ex \<Rightarrow> Inr False
      | Inr netcode \<Rightarrow>
          if netcode = None \<or> (network \<noteq> None \<and> netcode \<noteq> network) then Inr False
          else Inr True)"

text \<open>
  \<^verbatim>\<open>adjust_hwbalance(available=None, total=None)\<close>. The query returns the persistent
  object of the latest row; \<^verbatim>\<open>+=\<close> changes that object, \<^verbatim>\<open>ses.add\<close> of an object that
  is already persistent adds nothing, and the commit writes the changed attributes to
  the object's own row. Without a row, \<^verbatim>\<open>hwb\<close> is \<^verbatim>\<open>None\<close> and \<^verbatim>\<open>+=\<close> on its attribute
  raises \<^verbatim>\<open>AttributeError\<close>. (\<open>total_delta\<close> is the parameter \<^verbatim>\<open>total\<close>.)
\<close>

definition adjust_hwbalance :: "amount option \<Rightarrow> amount option \<Rightarrow> db \<Rightarrow> (error + unit) \<times> db" where
  "adjust_hwbalance available total_delta s =
     (if available = None \<and> total_delta = None then (Inr (), s)
      else
        case latest_hwb (hwbalances s) of
          None \<Rightarrow> (Inl (Exn AttributeError), s)
        | Some i \<Rightarrow>
            let hwb = hwbalances s ! i;
                hwb1 = (case available of None \<Rightarrow> hwb
                        | Some a \<Rightarrow> hwb\<lparr>hw_available := hw_available hwb + a\<rparr>);
                hwb2 = (case total_delta of None \<Rightarrow> hwb1
                        | Some t \<Rightarrow> hwb1\<lparr>hw_total := hw_total hwb1 + t\<rparr>);
                (ok, s1) = ses_commit (\<lambda>d. d\<lparr>hwbalances := (hwbalances d)[i := hwb2]\<rparr>) s
            in if ok then (Inr (), s1)
               else (Inr (), emit SesFlush (emit SesRollback (emit LogException s1))))"

text \<open>\<^verbatim>\<open>send_to_address(address, amount)\<close>\<close>

definition send_to_address :: "env \<Rightarrow> string \<Rightarrow> amount \<Rightarrow> db \<Rightarrow> (error + string) \<times> db" where
  "send_to_address e address amount s =
     (let s1 = emit (RpcSendToAddress address amount) s in
      case sendtoaddress e address amount of
        None \<Rightarrow> (Inl (Exn JSONRPCException), s1)
      | Some txid \<Rightarrow>
          (case adjust_hwbalance (Some (- amount)) (Some (- amount)) s1 of
             (Inl err, s2) \<Rightarrow> (Inl err, s2)
           | (Inr u, s2) \<Rightarrow> (Inr txid, s2)))"

text \<open>\<^verbatim>\<open>get_balance()\<close>: the pair is (total, available) of the dict it returns.\<close>

definition get_balance :: "db \<Rightarrow> error + amount \<times> amount" where
  "get_balance s =
     (case latest_hwb (hwbalances s) of
        None \<Rightarrow> Inl (Exn AttributeError)
      | Some i \<Rightarrow> Inr (hw_total (hwbalances s ! i), hw_available (hwbalances s ! i)))"

text \<open>
  Modelled from the spec: \<^verbatim>\<open>process_credit\<close> and \<^verbatim>\<open>confirm_send\<close> are imported from the
  ledger core \<^verbatim>\<open>desw\<close> and are not part of this module. The spec gives them as the
  ledger's entry points: the first "creates a Credit ... attributing the
  amount/currency/network/state/reference/user", the second is the "send-confirmation
  collaborator" called "with the destination address, amount, and reference id". So
  \<open>process_credit\<close> adds the Credit row (the row is in the store when the call
  returns) and \<open>confirm_send\<close> is recorded as a call.
\<close>

definition process_credit ::
  "amount \<Rightarrow> string \<Rightarrow> string \<Rightarrow> string \<Rightarrow> string \<Rightarrow> string \<Rightarrow> string \<Rightarrow> nat \<Rightarrow> db \<Rightarrow> db" where
  "process_credit amount address currency network transaction_state reference ref_id user_id s =
     s\<lparr>credits := credits s @
        [\<lparr>c_amount = amount, c_address = address, c_currency = currency, c_network = network,
          c_transaction_state = transaction_state, c_reference = reference, c_ref_id = ref_id,
          c_user_id = user_id\<rparr>]\<rparr>"

text \<open>
  Modelled from the spec: \<^verbatim>\<open>confirm_send\<close> of the ledger core, of which the spec says
  only that it is called with the destination address, the amount and the reference id.
\<close>

definition confirm_send :: "string \<Rightarrow> amount \<Rightarrow> string \<Rightarrow> db \<Rightarrow> db" where
  "confirm_send address amount ref_id s = emit (ConfirmSend address amount ref_id) s"

text \<open>
  \<^verbatim>\<open>process_receive(txid, details, confirmed=False)\<close>. The arguments of
  \<^verbatim>\<open>process_credit\<close> are evaluated before the call, so an empty \<^verbatim>\<open>CURRENCIES\<close> raises
  \<^verbatim>\<open>IndexError\<close> before a credit exists.
\<close>

definition process_receive :: "env \<Rightarrow> string \<Rightarrow> put \<Rightarrow> bool \<Rightarrow> db \<Rightarrow> (error + unit) \<times> db" where
  "process_receive e txid details confirmed s =
     (if filter (\<lambda>c. c_ref_id c = txid) (credits s) \<noteq> [] then
        (Inr (), emit (LogInfo ''txid already known. returning.'') s)
      else
        (let transaction_state = (if confirmed then ''complete'' else ''unconfirmed'') in
         case find (\<lambda>a. a_address a = put_address details) (addresses s) of
           None \<Rightarrow> (Inr (), emit (LogWarning ''address not known. returning.'') s)
         | Some addy \<Rightarrow>
             (let amount = put_amount details;
                  s1 = emit (LogInfo (''crediting txid '' @ txid)) s
              in (case CURRENCIES e of
                    [] \<Rightarrow> (Inl (Exn IndexError), s1)
                  | cur # others \<Rightarrow>
                      adjust_hwbalance None (Some amount)
                        (process_credit amount (put_address details) cur NETWORK
                           transaction_state ''tx received'' txid (a_user_id addy) s1)))))"

text \<open>
  The body of the loop over \<^verbatim>\<open>enumerate(txd['details'])\<close> of a transaction
  notification, and the loop: an exception ends it.
\<close>

definition handle_output :: "env \<Rightarrow> string \<Rightarrow> bool \<Rightarrow> nat \<Rightarrow> put \<Rightarrow> db \<Rightarrow> (error + unit) \<times> db" where
  "handle_output e txid confirmed p pt s =
     (if put_category pt = ''send'' then
        (Inr (), confirm_send (put_address pt) (put_amount pt) (ref_of txid p) s)
      else if put_category pt = ''receive'' then
        process_receive e (ref_of txid p) pt confirmed s
      else (Inr (), s))"

fun transaction_outputs ::
  "env \<Rightarrow> string \<Rightarrow> bool \<Rightarrow> (nat \<times> put) list \<Rightarrow> db \<Rightarrow> (error + unit) \<times> db" where
  "transaction_outputs e txid confirmed [] s = (Inr (), s)"
| "transaction_outputs e txid confirmed ((p, pt) # rest) s =
     (case handle_output e txid confirmed p pt s of
        (Inl err, s1) \<Rightarrow> (Inl err, s1)
      | (Inr u, s1) \<Rightarrow> transaction_outputs e txid confirmed rest s1)"

text \<open>
  The block notification. \<^verbatim>\<open>cred.ref_id.split(':')[0] or cred.ref_id\<close> is the part
  before the first colon, or the whole reference id when that part is empty.
\<close>

definition txid_of_ref :: "string \<Rightarrow> string" where
  "txid_of_ref r =
     (let h = takeWhile (\<lambda>c. c \<noteq> CHR '':'') r in if h = [] then r else h)"

text \<open>
  What the loop does to one credit once its transaction has enough confirmations:
  the inner loop assigns \<^verbatim>\<open>cred.ref_id\<close> once for every entry of the details.
\<close>

definition complete_cred :: "txd \<Rightarrow> credit \<Rightarrow> credit" where
  "complete_cred t cred =
     foldl (\<lambda>c (p, pt). c\<lparr>c_ref_id := ref_of (txd_txid t) p\<rparr>)
       (cred\<lparr>c_transaction_state := ''complete''\<rparr>)
       (enumerate 0 (txd_details t))"

text \<open>
  The loop over the credits the query selects (state unconfirmed, this network), in
  table order; the other rows are not touched. It yields the table with the changes
  pending in the session. A failed RPC call ends it with the exception.
\<close>

fun confirm_creds :: "env \<Rightarrow> credit list \<Rightarrow> db \<Rightarrow> (error + credit list) \<times> db" where
  "confirm_creds e [] s = (Inr [], s)"
| "confirm_creds e (cred # rest) s =
     (if c_transaction_state cred = ''unconfirmed'' \<and> c_network cred = NETWORK then
        (let txid = txid_of_ref (c_ref_id cred);
             s1 = emit (RpcGetTransaction txid) s
         in (case gettransaction e txid of
               None \<Rightarrow> (Inl (Exn JSONRPCException), s1)
             | Some t \<Rightarrow>
                 (let cred' = (if CONFS e \<le> txd_confirmations t then complete_cred t cred
                               else cred)
                  in (case confirm_creds e rest s1 of
                        (Inl err, s2) \<Rightarrow> (Inl err, s2)
                      | (Inr rest', s2) \<Rightarrow> (Inr (cred' # rest'), s2)))))
      else
        (case confirm_creds e rest s of
           (Inl err, s2) \<Rightarrow> (Inl err, s2)
         | (Inr rest', s2) \<Rightarrow> (Inr (cred # rest'), s2)))"

text \<open>
  The rest of the block branch of \<^verbatim>\<open>main\<close>, after the credits: the new balance row
  built from the daemon's balances. The \<^verbatim>\<open>except\<close> of its commit does not log.
\<close>

definition update_balances :: "env \<Rightarrow> info \<Rightarrow> db \<Rightarrow> (error + unit) \<times> db" where
  "update_balances e nfo s =
     (let s1 = emit RpcGetBalance s in
      case getbalance e of
        None \<Rightarrow> (Inl (Exn JSONRPCException), s1)
      | Some total_bal \<Rightarrow>
          (let avail = info_balance nfo in
           (case CURRENCIES e of
              [] \<Rightarrow> (Inl (Exn IndexError), s1)
            | cur # others \<Rightarrow>
                (let hwb = \<lparr>hw_available = avail, hw_total = total_bal, hw_currency = cur,
                            hw_network = lower NETWORK, hw_time = now s1\<rparr>;
                     (ok, s2) = ses_commit (\<lambda>d. d\<lparr>hwbalances := hwbalances d @ [hwb]\<rparr>) s1
                 in if ok then (Inr (), s2)
                    else (Inr (), emit SesFlush (emit SesRollback s2))))))"

text \<open>The block branch of \<^verbatim>\<open>main\<close>.\<close>

definition block_notification :: "env \<Rightarrow> db \<Rightarrow> (error + unit) \<times> db" where
  "block_notification e s =
     (let s0 = emit RpcGetInfo s in
      case getinfo e of
        None \<Rightarrow> (Inl (Exn JSONRPCException), s0)
      | Some nfo \<Rightarrow>
          (if info_blocks nfo \<le> lastblock s0 then (Inr (), s0)
           else
             (let s1 = s0\<lparr>lastblock := info_blocks nfo\<rparr> in
              (case confirm_creds e (credits s1) s1 of
                 (Inl err, s2) \<Rightarrow> (Inl err, s2)
               | (Inr creds', s2) \<Rightarrow>
                   (let (ok, s3) = ses_commit (\<lambda>d. d\<lparr>credits := creds'\<rparr>) s2;
                        s4 = (if ok then s3
                              else emit SesFlush (emit SesRollback (emit LogException s3)))
                    in update_balances e nfo s4)))))"

text \<open>
  \<^verbatim>\<open>main(sys_args)\<close>. The parser has the two positional arguments \<^verbatim>\<open>type\<close> and
  \<^verbatim>\<open>data\<close>; any other number of arguments ends in \<^verbatim>\<open>SystemExit\<close>. (Arguments that
  begin with a dash, which argparse reads as options, are not modelled.) A type that
  is neither of the two does nothing.
\<close>

definition main :: "env \<Rightarrow> string list \<Rightarrow> db \<Rightarrow> (error + unit) \<times> db" where
  "main e sys_args s =
     (case sys_args of
        [typ, data] \<Rightarrow>
          (if typ = ''transaction'' then
             (let txid = data;
                  s1 = emit (RpcGetTransaction txid) s
              in (case gettransaction e txid of
                    None \<Rightarrow> (Inl (Exn JSONRPCException), s1)
                  | Some t \<Rightarrow>
                      transaction_outputs e txid (CONFS e \<le> txd_confirmations t)
                        (enumerate 0 (txd_details t)) s1))
           else if typ = ''block'' then block_notification e s
           else (Inr (), s))
      | _ \<Rightarrow> (Inl SystemExit, s))"

section \<open>Auxiliary notions and example data\<close>

text \<open>The next \<^verbatim>\<open>ses.commit()\<close> succeeds.\<close>

definition commit_succeeds :: "db \<Rightarrow> bool" where
  "commit_succeeds s = (case commit_outcomes s of [] \<Rightarrow> True | ok # rest \<Rightarrow> ok)"


text \<open>
  Example data: a daemon that knows the transaction \<open>abc\<close> with two receive outputs
  and six confirmations, a store with two known addresses and one balance row, and the
  two credits a transaction notification for \<open>abc\<close> creates.
\<close>

definition ex_put_recv :: put where
  "ex_put_recv = \<lparr>put_address = ''addr1'', put_amount = 3 / 2, put_category = ''receive''\<rparr>"

definition ex_put_recv2 :: put where
  "ex_put_recv2 = \<lparr>put_address = ''addr2'', put_amount = 2, put_category = ''receive''\<rparr>"

definition ex_put_gen :: put where
  "ex_put_gen = \<lparr>put_address = ''addr1'', put_amount = 50, put_category = ''generate''\<rparr>"

definition ex_txd :: txd where
  "ex_txd = \<lparr>txd_confirmations = 6, txd_details = [ex_put_recv, ex_put_recv2], txd_txid = ''abc''\<rparr>"

definition ex_env :: env where
  "ex_env =
     \<lparr>gettransaction = (\<lambda>t. if t = ''abc'' then Some ex_txd else None),
      getinfo = Some \<lparr>info_blocks = 10, info_balance = 100\<rparr>,
      getbalance = Some 100,
      sendtoaddress = (\<lambda>a m. Some ''f00d''),
      is_address_valid =
        (\<lambda>a ns. if a = ''addr1'' then Inr (Some ''BTC'')
                else if a = [] then Inl EncodingError else Inr None),
      CURRENCIES = [''BTC''],
      CONFS = 3\<rparr>"

definition ex_db :: db where
  "ex_db =
     \<lparr>credits = [],
      addresses = [\<lparr>a_address = ''addr1'', a_user_id = 7\<rparr>,
                   \<lparr>a_address = ''addr2'', a_user_id = 8\<rparr>],
      hwbalances = [\<lparr>hw_available = 100, hw_total = 100, hw_currency = ''BTC'',
                     hw_network = ''bitcoin'', hw_time = 1\<rparr>],
      lastblock = 0, commit_outcomes = [], now = 2, trace = []\<rparr>"

definition ex_cred :: "nat \<Rightarrow> put \<Rightarrow> credit" where
  "ex_cred p pt =
     \<lparr>c_amount = put_amount pt, c_address = put_address pt, c_currency = ''BTC'',
      c_network = ''Bitcoin'', c_transaction_state = ''unconfirmed'',
      c_reference = ''tx received'', c_ref_id = ref_of ''abc'' p, c_user_id = 7 + p\<rparr>"

definition ex_db_pending :: db where
  "ex_db_pending = ex_db\<lparr>credits := [ex_cred 0 ex_put_recv, ex_cred 1 ex_put_recv2]\<rparr>"

text \<open>
  The credits the query of the block branch selects, and what the loop does to one
  credit when the daemon answers; the lemmas on \<open>confirm_creds\<close> are stated with them.
\<close>

definition selected :: "credit \<Rightarrow> bool" where
  "selected c = (c_transaction_state c = ''unconfirmed'' \<and> c_network c = NETWORK)"

definition confirm_one :: "env \<Rightarrow> credit \<Rightarrow> credit" where
  "confirm_one e c =
     (if selected c then
        (case gettransaction e (txid_of_ref (c_ref_id c)) of
           None \<Rightarrow> c
         | Some t \<Rightarrow> if CONFS e \<le> txd_confirmations t then complete_cred t c else c)
      else c)"

section \<open>Properties\<close>

lemma lower_NETWORK: "lower NETWORK = ''bitcoin''"
  by code_simp

lemma latest_hwb_less: "latest_hwb hs = Some i \<Longrightarrow> i < length hs"
  by (induction hs arbitrary: i) (auto split: option.splits if_splits)

lemma latest_hwb_network: "latest_hwb hs = Some i \<Longrightarrow> hw_network (hs ! i) = lower NETWORK"
  by (induction hs arbitrary: i) (auto split: option.splits if_splits)

lemma latest_hwb_keys:
  "map (\<lambda>r. (hw_network r, hw_time r)) hs = map (\<lambda>r. (hw_network r, hw_time r)) hs'
   \<Longrightarrow> latest_hwb hs = latest_hwb hs'"
proof (induction hs arbitrary: hs')
  case Nil
  then show ?case by simp
next
  case (Cons r rs)
  then obtain r' rs' where hs': "hs' = r' # rs'"
    and r: "hw_network r' = hw_network r" "hw_time r' = hw_time r"
    and rs: "map (\<lambda>r. (hw_network r, hw_time r)) rs = map (\<lambda>r. (hw_network r, hw_time r)) rs'"
    by (cases hs') auto
  have eq: "latest_hwb rs = latest_hwb rs'"
    using Cons.IH [OF rs] .
  have len: "length rs = length rs'"
    using rs by (metis length_map)
  have tm: "\<And>j. latest_hwb rs = Some j \<Longrightarrow> hw_time (rs ! j) = hw_time (rs' ! j)"
  proof -
    fix j assume "latest_hwb rs = Some j"
    then have j: "j < length rs" by (rule latest_hwb_less)
    have "map (\<lambda>r. (hw_network r, hw_time r)) rs ! j = map (\<lambda>r. (hw_network r, hw_time r)) rs' ! j"
      using rs by simp
    then show "hw_time (rs ! j) = hw_time (rs' ! j)"
      using j len by simp
  qed
  show ?case
    using eq r tm by (auto simp: hs' split: option.splits)
qed

lemma latest_hwb_update:
  assumes "latest_hwb hs = Some i"
    and "hw_network r = hw_network (hs ! i)" and "hw_time r = hw_time (hs ! i)"
  shows "latest_hwb (hs[i := r]) = Some i"
proof -
  have "i < length hs"
    using assms(1) by (rule latest_hwb_less)
  then have "map (\<lambda>r. (hw_network r, hw_time r)) (hs[i := r]) = map (\<lambda>r. (hw_network r, hw_time r)) hs"
    using assms(2,3) by (simp add: map_update list_update_same_conv)
  then show ?thesis
    using latest_hwb_keys assms(1) by metis
qed

lemma ses_commit_ok:
  assumes "commit_succeeds s"
  shows "ses_commit pending s =
     (True, emit (SesCommit True) (pending (s\<lparr>commit_outcomes := tl (commit_outcomes s)\<rparr>)))"
proof (cases "commit_outcomes s")
  case Nil
  then have "pending (s\<lparr>commit_outcomes := []\<rparr>) = pending s"
    by (cases s) simp
  with Nil show ?thesis
    by (simp add: ses_commit_def)
next
  case (Cons ok rest)
  then show ?thesis
    using assms by (simp add: ses_commit_def commit_succeeds_def)
qed

lemma adjust_hwbalance_ok:
  assumes "available \<noteq> None \<or> total_delta \<noteq> None"
    and "latest_hwb (hwbalances s) = Some i"
    and "commit_succeeds s"
  shows "adjust_hwbalance available total_delta s =
     (Inr (), emit (SesCommit True)
        (s\<lparr>commit_outcomes := tl (commit_outcomes s),
           hwbalances := (hwbalances s)[i := (hwbalances s ! i)
              \<lparr>hw_available := (case available of None \<Rightarrow> hw_available (hwbalances s ! i)
                                | Some a \<Rightarrow> hw_available (hwbalances s ! i) + a),
               hw_total := (case total_delta of None \<Rightarrow> hw_total (hwbalances s ! i)
                            | Some t \<Rightarrow> hw_total (hwbalances s ! i) + t)\<rparr>]\<rparr>))"
  using assms by (cases available; cases total_delta) (simp_all add: adjust_hwbalance_def ses_commit_ok Let_def)

text \<open>
  Claim C1, amended: when at least one delta is given, a latest row exists for the
  network and the commit succeeds, \<open>adjust_hwbalance\<close> returns normally and the latest
  row itself is updated in place: its available and total become the previous values
  plus the given deltas (an omitted delta leaves the field as it is), its network,
  currency and time are unchanged, every other row is unchanged, the table keeps its
  length, the same row stays the latest one, and no credit is touched.
\<close>

theorem adjust_hwbalance_in_place:
  assumes "available \<noteq> None \<or> total_delta \<noteq> None"
    and "latest_hwb (hwbalances s) = Some i"
    and "commit_succeeds s"
  shows "fst (adjust_hwbalance available total_delta s) = Inr () \<and>
         hwbalances (snd (adjust_hwbalance available total_delta s)) =
           (hwbalances s)[i := (hwbalances s ! i)
              \<lparr>hw_available := (case available of None \<Rightarrow> hw_available (hwbalances s ! i)
                                | Some a \<Rightarrow> hw_available (hwbalances s ! i) + a),
               hw_total := (case total_delta of None \<Rightarrow> hw_total (hwbalances s ! i)
                            | Some t \<Rightarrow> hw_total (hwbalances s ! i) + t)\<rparr>] \<and>
         length (hwbalances (snd (adjust_hwbalance available total_delta s))) = length (hwbalances s) \<and>
         latest_hwb (hwbalances (snd (adjust_hwbalance available total_delta s))) = Some i \<and>
         credits (snd (adjust_hwbalance available total_delta s)) = credits s"
proof -
  let ?h = "hwbalances s ! i"
  let ?h' = "?h\<lparr>hw_available := (case available of None \<Rightarrow> hw_available ?h | Some a \<Rightarrow> hw_available ?h + a),
               hw_total := (case total_delta of None \<Rightarrow> hw_total ?h | Some t \<Rightarrow> hw_total ?h + t)\<rparr>"
  note run = adjust_hwbalance_ok [OF assms]
  have "latest_hwb ((hwbalances s)[i := ?h']) = Some i"
    using assms(2) by (rule latest_hwb_update) simp_all
  then show ?thesis
    by (simp add: run emit_def)
qed

text \<open>
  Claim C9: when the commit inside \<open>adjust_hwbalance\<close> fails, the call returns normally
  (no exception reaches the caller), the exception is logged, the session is rolled
  back and flushed, the tables are as before (the adjustment is dropped), and exactly
  one commit was attempted (no retry).
\<close>

theorem adjust_hwbalance_commit_failure:
  assumes "available \<noteq> None \<or> total_delta \<noteq> None"
    and "latest_hwb (hwbalances s) = Some i"
    and "commit_outcomes s = False # rest"
  shows "adjust_hwbalance available total_delta s =
     (Inr (), s\<lparr>commit_outcomes := rest,
                trace := trace s @ [SesCommit False, LogException, SesRollback, SesFlush]\<rparr>)"
  using assms by (auto simp: adjust_hwbalance_def ses_commit_def emit_def)

text \<open>
  Claim C5: \<open>validate_address\<close> never raises and returns a boolean, which is true exactly
  when the decoder returns a netcode and, if a network was requested, that netcode is
  the requested one; a decoder exception gives false.
\<close>

theorem validate_address_bool:
  "validate_address e address network =
     Inr (\<exists>c. is_address_valid e address NETCODES = Inr (Some c) \<and>
              (network = None \<or> network = Some c))"
  by (auto simp: validate_address_def split: sum.splits)

text \<open>
  Claim C7: a block notification whose reported height is at most \<open>lastblock\<close> returns
  at once; the state after it is the state before it, but for the record of the
  \<open>getinfo\<close> call: no credit is changed, no balance row is appended.
\<close>

theorem stale_block_ignored:
  assumes "getinfo e = Some nfo" and "info_blocks nfo \<le> lastblock s"
  shows "main e [''block'', data] s = (Inr (), s\<lparr>trace := trace s @ [RpcGetInfo]\<rparr>)"
  using assms by (simp add: main_def block_notification_def emit_def)

lemma handle_output_other:
  "put_category pt \<noteq> ''send'' \<Longrightarrow> put_category pt \<noteq> ''receive'' \<Longrightarrow>
   handle_output e txid confirmed p pt s = (Inr (), s)"
  by (simp add: handle_output_def)

text \<open>
  Claim C10: an output whose category is neither \<open>send\<close> nor \<open>receive\<close> is skipped:
  the loop body leaves the state as it is (no \<open>confirm_send\<close> call, no credit, no
  balance change), and the loop over the outputs of a transaction gives the same
  result with and without that output.
\<close>

theorem other_categories_skipped:
  assumes "put_category pt \<noteq> ''send''" and "put_category pt \<noteq> ''receive''"
  shows "handle_output e txid confirmed p pt s = (Inr (), s) \<and>
         transaction_outputs e txid confirmed (pre @ (p, pt) # post) s =
           transaction_outputs e txid confirmed (pre @ post) s"
proof
  show "handle_output e txid confirmed p pt s = (Inr (), s)"
    using assms by (rule handle_output_other)
  show "transaction_outputs e txid confirmed (pre @ (p, pt) # post) s =
           transaction_outputs e txid confirmed (pre @ post) s"
  proof (induction pre arbitrary: s)
    case Nil
    then show ?case using assms by (simp add: handle_output_other)
  next
    case (Cons a pre)
    then show ?case by (cases a) (simp split: prod.splits sum.splits)
  qed
qed

lemma latest_ex_db: "latest_hwb (hwbalances ex_db) = Some 0"
  by (simp add: ex_db_def lower_NETWORK)

text \<open>
  Claim C1, as stated, fails: \<open>adjust_hwbalance(available=-5, total=-5)\<close> on a store whose
  only balance row is \<open>{100, 100}\<close> leaves one row, and that row is the changed one: no
  row is appended, the previous row is overwritten.
\<close>

theorem adjust_hwbalance_appends_counterexample:
  "length (hwbalances (snd (adjust_hwbalance (Some (- 5)) (Some (- 5)) ex_db))) \<noteq>
     length (hwbalances ex_db) + 1 \<and>
   hwbalances (snd (adjust_hwbalance (Some (- 5)) (Some (- 5)) ex_db)) ! 0 \<noteq> hwbalances ex_db ! 0"
  by (simp add: adjust_hwbalance_def ses_commit_def emit_def ex_db_def lower_NETWORK)

text \<open>The amended claim C1 at the example store.\<close>

theorem adjust_hwbalance_in_place_witness:
  "latest_hwb (hwbalances ex_db) = Some 0 \<and> commit_succeeds ex_db \<and>
   fst (adjust_hwbalance (Some (- 5)) (Some (- 5)) ex_db) = Inr () \<and>
   hwbalances (snd (adjust_hwbalance (Some (- 5)) (Some (- 5)) ex_db)) =
     [\<lparr>hw_available = 95, hw_total = 95, hw_currency = ''BTC'', hw_network = ''bitcoin'',
       hw_time = 1\<rparr>]"
proof -
  have c: "commit_succeeds ex_db"
    by (simp add: commit_succeeds_def ex_db_def)
  show ?thesis
    using adjust_hwbalance_in_place [of "Some (- 5)" "Some (- 5)" ex_db 0, OF _ latest_ex_db c]
    by (simp add: latest_ex_db c) (simp add: ex_db_def)
qed

text \<open>Claim C9 at the example store with a failing commit.\<close>

theorem adjust_hwbalance_commit_failure_witness:
  "adjust_hwbalance None (Some 2) (ex_db\<lparr>commit_outcomes := [False]\<rparr>) =
     (Inr (), ex_db\<lparr>trace := [SesCommit False, LogException, SesRollback, SesFlush]\<rparr>)"
proof -
  have l: "latest_hwb (hwbalances (ex_db\<lparr>commit_outcomes := [False]\<rparr>)) = Some 0"
    by (simp add: latest_ex_db)
  have o: "commit_outcomes (ex_db\<lparr>commit_outcomes := [False]\<rparr>) = False # []"
    by simp
  show ?thesis
    using adjust_hwbalance_commit_failure [of None "Some 2", OF _ l o]
    by (simp add: ex_db_def)
qed

text \<open>Claim C7 at the example store, with the height already seen.\<close>

theorem stale_block_ignored_witness:
  "getinfo ex_env = Some \<lparr>info_blocks = 10, info_balance = 100\<rparr> \<and>
   main ex_env [''block'', []] (ex_db\<lparr>lastblock := 10\<rparr>) =
     (Inr (), ex_db\<lparr>lastblock := 10, trace := [RpcGetInfo]\<rparr>)"
proof -
  have g: "getinfo ex_env = Some \<lparr>info_blocks = 10, info_balance = 100\<rparr>"
    by (simp add: ex_env_def)
  show ?thesis
    using stale_block_ignored [of ex_env _ "ex_db\<lparr>lastblock := 10\<rparr>" "[]", OF g]
    by (simp add: g) (simp add: ex_db_def)
qed

text \<open>Claim C10 at a \<open>generate\<close> output.\<close>

theorem other_categories_skipped_witness:
  "put_category ex_put_gen \<noteq> ''send'' \<and> put_category ex_put_gen \<noteq> ''receive'' \<and>
   handle_output ex_env ''abc'' False 1 ex_put_gen ex_db = (Inr (), ex_db) \<and>
   transaction_outputs ex_env ''abc'' False [(0, ex_put_recv), (1, ex_put_gen)] ex_db =
     transaction_outputs ex_env ''abc'' False [(0, ex_put_recv)] ex_db"
proof -
  have a: "put_category ex_put_gen \<noteq> ''send''" and b: "put_category ex_put_gen \<noteq> ''receive''"
    by (simp_all add: ex_put_gen_def)
  show ?thesis
    using other_categories_skipped [OF a b, of ex_env "''abc''" False 1 ex_db "[(0, ex_put_recv)]" "[]"]
    by (simp add: a b)
qed

lemma get_balance_adjusted:
  assumes "latest_hwb hs = Some i"
    and "hwbalances s' = hs[i := (hs ! i)\<lparr>hw_available := av, hw_total := tt\<rparr>]"
  shows "get_balance s' = Inr (tt, av)"
proof -
  have "latest_hwb (hs[i := (hs ! i)\<lparr>hw_available := av, hw_total := tt\<rparr>]) = Some i"
    using assms(1) by (rule latest_hwb_update) simp_all
  moreover have "i < length hs"
    using assms(1) by (rule latest_hwb_less)
  ultimately show ?thesis
    by (simp add: get_balance_def assms(2))
qed

lemma adjust_hwbalance_none:
  assumes "available \<noteq> None \<or> total_delta \<noteq> None"
    and "latest_hwb (hwbalances s) = None"
  shows "adjust_hwbalance available total_delta s = (Inl (Exn AttributeError), s)"
  using assms by (auto simp: adjust_hwbalance_def)

lemma adjust_hwbalance_credits:
  "credits (snd (adjust_hwbalance available total_delta s)) = credits s"
  by (simp add: adjust_hwbalance_def ses_commit_def emit_def Let_def
      split: option.splits list.splits prod.splits)

lemma adjust_hwbalance_trace_prefix:
  "take (length (trace s)) (trace (snd (adjust_hwbalance available total_delta s))) = trace s"
  by (simp add: adjust_hwbalance_def ses_commit_def emit_def Let_def
      split: option.splits list.splits prod.splits)

lemma process_receive_known:
  "filter (\<lambda>c. c_ref_id c = txid) (credits s) \<noteq> [] \<Longrightarrow>
   process_receive e txid details confirmed s =
     (Inr (), emit (LogInfo ''txid already known. returning.'') s)"
  by (simp add: process_receive_def)

lemma process_receive_credits:
  "credits (snd (process_receive e txid details confirmed s)) = credits s \<or>
   (filter (\<lambda>c. c_ref_id c = txid) (credits s) = [] \<and>
    (\<exists>cr. c_ref_id cr = txid \<and>
       credits (snd (process_receive e txid details confirmed s)) = credits s @ [cr]))"
  by (simp add: process_receive_def Let_def adjust_hwbalance_credits process_credit_def emit_def
      split: option.splits list.splits)

lemma process_receive_creates:
  assumes "filter (\<lambda>c. c_ref_id c = txid) (credits s) = []"
    and "find (\<lambda>a. a_address a = put_address details) (addresses s) = Some addy"
    and "CURRENCIES e = cur # others"
  shows "credits (snd (process_receive e txid details confirmed s)) =
     credits s @
       [\<lparr>c_amount = put_amount details, c_address = put_address details, c_currency = cur,
         c_network = NETWORK,
         c_transaction_state = (if confirmed then ''complete'' else ''unconfirmed''),
         c_reference = ''tx received'', c_ref_id = txid, c_user_id = a_user_id addy\<rparr>]"
  using assms
  by (simp add: process_receive_def Let_def adjust_hwbalance_credits process_credit_def emit_def)

lemma process_receive_count:
  "length (filter (\<lambda>c. c_ref_id c = txid) (credits (snd (process_receive e txid details confirmed s))))
     \<le> max 1 (length (filter (\<lambda>c. c_ref_id c = txid) (credits s)))"
  using process_receive_credits [of e txid details confirmed s] by auto

lemma process_receive_distinct:
  assumes "distinct (map c_ref_id (credits s))"
  shows "distinct (map c_ref_id (credits (snd (process_receive e txid details confirmed s))))"
proof -
  from process_receive_credits [of e txid details confirmed s]
  show ?thesis
  proof
    assume "credits (snd (process_receive e txid details confirmed s)) = credits s"
    with assms show ?thesis by simp
  next
    assume "filter (\<lambda>c. c_ref_id c = txid) (credits s) = [] \<and>
      (\<exists>cr. c_ref_id cr = txid \<and>
         credits (snd (process_receive e txid details confirmed s)) = credits s @ [cr])"
    then obtain cr where new: "filter (\<lambda>c. c_ref_id c = txid) (credits s) = []"
      and cr: "c_ref_id cr = txid"
      and eq: "credits (snd (process_receive e txid details confirmed s)) = credits s @ [cr]"
      by blast
    from new have "txid \<notin> c_ref_id ` set (credits s)"
      by (auto simp: filter_empty_conv)
    with assms show ?thesis
      by (simp add: eq cr)
  qed
qed

text \<open>
  Claim C2: \<open>process_receive\<close> is idempotent on the reference id. If a credit with the
  reference id exists, the call only logs and returns (no credit, no balance change).
  Two calls with the same new reference id leave at most one credit with it, whatever
  the details; when the address is known (and a currency is configured) the first call
  creates exactly one and the second only logs and returns. A table with at most one
  credit per reference id stays so.
\<close>

theorem process_receive_idempotent:
  "(filter (\<lambda>c. c_ref_id c = txid) (credits s) \<noteq> [] \<longrightarrow>
      process_receive e txid details confirmed s =
        (Inr (), emit (LogInfo ''txid already known. returning.'') s)) \<and>
   (filter (\<lambda>c. c_ref_id c = txid) (credits s) = [] \<longrightarrow>
      length (filter (\<lambda>c. c_ref_id c = txid)
        (credits (snd (process_receive e txid details' confirmed'
           (snd (process_receive e txid details confirmed s)))))) \<le> 1) \<and>
   (filter (\<lambda>c. c_ref_id c = txid) (credits s) = [] \<and>
    find (\<lambda>a. a_address a = put_address details) (addresses s) \<noteq> None \<and>
    CURRENCIES e \<noteq> [] \<longrightarrow>
      length (filter (\<lambda>c. c_ref_id c = txid)
        (credits (snd (process_receive e txid details confirmed s)))) = 1 \<and>
      process_receive e txid details' confirmed' (snd (process_receive e txid details confirmed s)) =
        (Inr (), emit (LogInfo ''txid already known. returning.'')
           (snd (process_receive e txid details confirmed s)))) \<and>
   (distinct (map c_ref_id (credits s)) \<longrightarrow>
      distinct (map c_ref_id (credits (snd (process_receive e txid details confirmed s)))))"
proof (intro conjI impI)
  assume "filter (\<lambda>c. c_ref_id c = txid) (credits s) \<noteq> []"
  then show "process_receive e txid details confirmed s =
        (Inr (), emit (LogInfo ''txid already known. returning.'') s)"
    by (rule process_receive_known)
next
  let ?s1 = "snd (process_receive e txid details confirmed s)"
  assume new: "filter (\<lambda>c. c_ref_id c = txid) (credits s) = []"
  have "length (filter (\<lambda>c. c_ref_id c = txid) (credits ?s1)) \<le> 1"
    using process_receive_count [of txid e details confirmed s] new by simp
  moreover have "length (filter (\<lambda>c. c_ref_id c = txid)
      (credits (snd (process_receive e txid details' confirmed' ?s1))))
      \<le> max 1 (length (filter (\<lambda>c. c_ref_id c = txid) (credits ?s1)))"
    by (rule process_receive_count)
  ultimately show "length (filter (\<lambda>c. c_ref_id c = txid)
      (credits (snd (process_receive e txid details' confirmed' ?s1)))) \<le> 1"
    by simp
next
  let ?s1 = "snd (process_receive e txid details confirmed s)"
  assume h: "filter (\<lambda>c. c_ref_id c = txid) (credits s) = [] \<and>
    find (\<lambda>a. a_address a = put_address details) (addresses s) \<noteq> None \<and>
    CURRENCIES e \<noteq> []"
  then obtain addy cur others where
    known: "find (\<lambda>a. a_address a = put_address details) (addresses s) = Some addy"
    and cur: "CURRENCIES e = cur # others"
    by (cases "CURRENCIES e") auto
  from h have new: "filter (\<lambda>c. c_ref_id c = txid) (credits s) = []"
    by simp
  show one: "length (filter (\<lambda>c. c_ref_id c = txid) (credits ?s1)) = 1"
    by (simp add: process_receive_creates [OF new known cur] new)
  then have "filter (\<lambda>c. c_ref_id c = txid) (credits ?s1) \<noteq> []"
    by auto
  then show "process_receive e txid details' confirmed' ?s1 =
      (Inr (), emit (LogInfo ''txid already known. returning.'') ?s1)"
    by (rule process_receive_known)
next
  assume "distinct (map c_ref_id (credits s))"
  then show "distinct (map c_ref_id (credits (snd (process_receive e txid details confirmed s))))"
    by (rule process_receive_distinct)
qed

text \<open>
  Claim C6: a call of \<open>process_receive\<close> on a new reference id with a known address that
  returns normally, its commit succeeding, raises the total of the balance that
  \<open>get_balance\<close> reads by exactly the received amount and leaves the available amount
  as it was.
\<close>

theorem process_receive_total_only:
  assumes new: "filter (\<lambda>c. c_ref_id c = txid) (credits s) = []"
    and known: "find (\<lambda>a. a_address a = put_address details) (addresses s) = Some addy"
    and ok: "fst (process_receive e txid details confirmed s) = Inr ()"
    and commit: "commit_succeeds s"
  shows "\<exists>t a. get_balance s = Inr (t, a) \<and>
           get_balance (snd (process_receive e txid details confirmed s)) =
             Inr (t + put_amount details, a)"
proof -
  obtain cur others where cur: "CURRENCIES e = cur # others"
    using new known ok by (cases "CURRENCIES e") (auto simp: process_receive_def Let_def)
  define s2 where "s2 = process_credit (put_amount details) (put_address details) cur NETWORK
      (if confirmed then ''complete'' else ''unconfirmed'') ''tx received'' txid (a_user_id addy)
      (emit (LogInfo (''crediting txid '' @ txid)) s)"
  have run: "process_receive e txid details confirmed s =
      adjust_hwbalance None (Some (put_amount details)) s2"
    using new known cur by (simp add: process_receive_def Let_def s2_def)
  have hw: "hwbalances s2 = hwbalances s" and co: "commit_succeeds s2"
    using commit by (simp_all add: s2_def process_credit_def emit_def commit_succeeds_def)
  have "latest_hwb (hwbalances s2) \<noteq> None"
  proof
    assume "latest_hwb (hwbalances s2) = None"
    then have "adjust_hwbalance None (Some (put_amount details)) s2 = (Inl (Exn AttributeError), s2)"
      by (intro adjust_hwbalance_none) simp_all
    with ok run show False
      by simp
  qed
  then obtain i where i2: "latest_hwb (hwbalances s2) = Some i"
    by blast
  then have i: "latest_hwb (hwbalances s) = Some i"
    using hw by simp
  have adj: "adjust_hwbalance None (Some (put_amount details)) s2 =
     (Inr (), emit (SesCommit True)
        (s2\<lparr>commit_outcomes := tl (commit_outcomes s2),
           hwbalances := (hwbalances s2)[i := (hwbalances s2 ! i)
              \<lparr>hw_available := hw_available (hwbalances s2 ! i),
               hw_total := hw_total (hwbalances s2 ! i) + put_amount details\<rparr>]\<rparr>))"
    using adjust_hwbalance_ok [OF _ i2 co, of None "Some (put_amount details)"] by simp
  have "hwbalances (snd (process_receive e txid details confirmed s)) =
      (hwbalances s)[i := (hwbalances s ! i)
        \<lparr>hw_available := hw_available (hwbalances s ! i),
         hw_total := hw_total (hwbalances s ! i) + put_amount details\<rparr>]"
    unfolding run adj by (simp add: emit_def hw)
  with i have "get_balance (snd (process_receive e txid details confirmed s)) =
      Inr (hw_total (hwbalances s ! i) + put_amount details, hw_available (hwbalances s ! i))"
    by (rule get_balance_adjusted)
  moreover have "get_balance s = Inr (hw_total (hwbalances s ! i), hw_available (hwbalances s ! i))"
    using i by (simp add: get_balance_def)
  ultimately show ?thesis
    by blast
qed

text \<open>
  Claim C8: for every store, address and amount, the first thing \<open>send_to_address\<close>
  does is the daemon's send call; it is made also when no balance row exists or the
  amount exceeds the available balance, since nothing relates the amount to the
  balance. When the daemon reports a transaction id, a balance row exists and the
  commit succeeds, the call returns that id, and both the total and the available
  amount that \<open>get_balance\<close> reads are lower by the sent amount.
\<close>

theorem send_to_address_decrements:
  "take (Suc (length (trace s))) (trace (snd (send_to_address e address amount s))) =
     trace s @ [RpcSendToAddress address amount] \<and>
   (sendtoaddress e address amount = Some txid \<and> get_balance s = Inr (t, a) \<and> commit_succeeds s
    \<longrightarrow>
      fst (send_to_address e address amount s) = Inr txid \<and>
      get_balance (snd (send_to_address e address amount s)) = Inr (t - amount, a - amount) \<and>
      length (hwbalances (snd (send_to_address e address amount s))) = length (hwbalances s) \<and>
      trace (snd (send_to_address e address amount s)) =
        trace s @ [RpcSendToAddress address amount, SesCommit True])"
proof (intro conjI impI)
  let ?s1 = "emit (RpcSendToAddress address amount) s"
  have "take (length (trace ?s1)) (trace (snd (adjust_hwbalance (Some (- amount)) (Some (- amount)) ?s1)))
      = trace ?s1"
    by (rule adjust_hwbalance_trace_prefix)
  then show "take (Suc (length (trace s))) (trace (snd (send_to_address e address amount s))) =
     trace s @ [RpcSendToAddress address amount]"
    by (auto simp: send_to_address_def Let_def emit_def split: option.splits prod.splits sum.splits)
next
  let ?s1 = "emit (RpcSendToAddress address amount) s"
  assume h: "sendtoaddress e address amount = Some txid \<and> get_balance s = Inr (t, a) \<and>
    commit_succeeds s"
  then obtain i where i: "latest_hwb (hwbalances s) = Some i"
    and t: "t = hw_total (hwbalances s ! i)" and a: "a = hw_available (hwbalances s ! i)"
    by (cases "latest_hwb (hwbalances s)") (auto simp: get_balance_def)
  have i1: "latest_hwb (hwbalances ?s1) = Some i" and co: "commit_succeeds ?s1"
    using i h by (simp_all add: emit_def commit_succeeds_def)
  note run = adjust_hwbalance_ok [OF _ i1 co, of "Some (- amount)" "Some (- amount)", simplified]
  have send: "send_to_address e address amount s =
      (Inr txid, snd (adjust_hwbalance (Some (- amount)) (Some (- amount)) ?s1))"
    using h by (simp add: send_to_address_def Let_def run)
  show "fst (send_to_address e address amount s) = Inr txid"
    by (simp add: send)
  have "hwbalances (snd (send_to_address e address amount s)) =
      (hwbalances s)[i := (hwbalances s ! i)
        \<lparr>hw_available := a - amount, hw_total := t - amount\<rparr>]"
    unfolding send snd_conv run by (simp add: emit_def t a)
  with i show "get_balance (snd (send_to_address e address amount s)) = Inr (t - amount, a - amount)"
    by (rule get_balance_adjusted)
  show "length (hwbalances (snd (send_to_address e address amount s))) = length (hwbalances s)"
    unfolding send snd_conv run by (simp add: emit_def)
  show "trace (snd (send_to_address e address amount s)) =
        trace s @ [RpcSendToAddress address amount, SesCommit True]"
    unfolding send snd_conv run by (simp add: emit_def)
qed

lemma foldl_ref_id_state:
  "c_transaction_state (foldl (\<lambda>c (p, pt). c\<lparr>c_ref_id := f p\<rparr>) c0 xs) = c_transaction_state c0"
  by (induction xs arbitrary: c0) auto

lemma complete_cred_state: "c_transaction_state (complete_cred t c) = ''complete''"
  by (simp add: complete_cred_def foldl_ref_id_state)

lemma complete_cred_ref_id:
  assumes "txd_details t \<noteq> []"
  shows "c_ref_id (complete_cred t c) = ref_of (txd_txid t) (length (txd_details t) - 1)"
proof -
  obtain ds d where ds: "txd_details t = ds @ [d]"
    using assms by (cases "txd_details t" rule: rev_cases) auto
  show ?thesis
    by (simp add: complete_cred_def ds enumerate_append_eq)
qed

lemma confirm_one_unselected: "\<not> selected c \<Longrightarrow> confirm_one e c = c"
  by (simp add: confirm_one_def)

lemma confirm_creds_frame:
  "credits (snd (confirm_creds e cs s)) = credits s \<and>
   hwbalances (snd (confirm_creds e cs s)) = hwbalances s \<and>
   commit_outcomes (snd (confirm_creds e cs s)) = commit_outcomes s"
proof (induction cs arbitrary: s)
  case Nil
  then show ?case by simp
next
  case (Cons cred rest)
  show ?case
    using Cons.IH [of s] Cons.IH [of "emit (RpcGetTransaction (txid_of_ref (c_ref_id cred))) s"]
    by (auto simp: Let_def emit_def split: option.splits prod.splits sum.splits)
qed

lemma confirm_creds_result:
  "fst (confirm_creds e cs s) = Inr cs' \<Longrightarrow> cs' = map (confirm_one e) cs"
proof (induction cs arbitrary: s cs')
  case Nil
  then show ?case by simp
next
  case (Cons cred rest)
  show ?case
  proof (cases "selected cred")
    case False
    then have ns: "\<not> (c_transaction_state cred = ''unconfirmed'' \<and> c_network cred = NETWORK)"
      by (simp add: selected_def)
    with Cons.prems obtain rest' where "fst (confirm_creds e rest s) = Inr rest'"
      and "cs' = cred # rest'"
      by (auto split: prod.splits sum.splits)
    with Cons.IH False show ?thesis
      by (simp add: confirm_one_unselected)
  next
    case True
    then have sel: "c_transaction_state cred = ''unconfirmed'' \<and> c_network cred = NETWORK"
      by (simp add: selected_def)
    let ?s1 = "emit (RpcGetTransaction (txid_of_ref (c_ref_id cred))) s"
    from Cons.prems sel obtain t rest' where
      t: "gettransaction e (txid_of_ref (c_ref_id cred)) = Some t"
      and r: "fst (confirm_creds e rest ?s1) = Inr rest'"
      and c: "cs' = (if CONFS e \<le> txd_confirmations t then complete_cred t cred else cred) # rest'"
      by (auto simp: Let_def split: option.splits prod.splits sum.splits)
    from Cons.IH [OF r] show ?thesis
      by (simp add: c confirm_one_def True t)
  qed
qed

lemma confirm_creds_answers:
  assumes "\<forall>c\<in>set cs. c_transaction_state c = ''unconfirmed'' \<and> c_network c = NETWORK \<longrightarrow>
             gettransaction e (txid_of_ref (c_ref_id c)) \<noteq> None"
  shows "\<exists>cs'. fst (confirm_creds e cs s) = Inr cs'"
  using assms
proof (induction cs arbitrary: s)
  case Nil
  then show ?case by simp
next
  case (Cons cred rest)
  have rest: "\<And>s'. \<exists>cs'. fst (confirm_creds e rest s') = Inr cs'"
    using Cons.IH Cons.prems by simp
  show ?case
  proof (cases "c_transaction_state cred = ''unconfirmed'' \<and> c_network cred = NETWORK")
    case False
    obtain rest' where "fst (confirm_creds e rest s) = Inr rest'"
      using rest by blast
    with False show ?thesis
      by (auto split: prod.splits sum.splits)
  next
    case True
    let ?s1 = "emit (RpcGetTransaction (txid_of_ref (c_ref_id cred))) s"
    obtain t where t: "gettransaction e (txid_of_ref (c_ref_id cred)) = Some t"
      using Cons.prems True by auto
    obtain rest' where "fst (confirm_creds e rest ?s1) = Inr rest'"
      using rest by blast
    with True t show ?thesis
      by (auto simp: Let_def split: prod.splits sum.splits)
  qed
qed

lemma update_balances_credits: "credits (snd (update_balances e nfo s)) = credits s"
  by (auto simp: update_balances_def Let_def emit_def ses_commit_def
      split: option.splits list.splits prod.splits if_splits)

lemma block_notification_credits:
  "credits (snd (block_notification e s)) = credits s \<or>
   credits (snd (block_notification e s)) = map (confirm_one e) (credits s)"
proof (cases "getinfo e")
  case None
  then show ?thesis
    by (simp add: block_notification_def emit_def)
next
  case (Some nfo)
  let ?s0 = "emit RpcGetInfo s"
  show ?thesis
  proof (cases "info_blocks nfo \<le> lastblock s")
    case True
    with Some show ?thesis
      by (simp add: block_notification_def emit_def)
  next
    case False
    let ?s1 = "?s0\<lparr>lastblock := info_blocks nfo\<rparr>"
    obtain r s2 where cc: "confirm_creds e (credits s) ?s1 = (r, s2)"
      by (cases "confirm_creds e (credits s) ?s1")
    have fr: "credits s2 = credits s"
      using confirm_creds_frame [of e "credits s" ?s1] cc by (simp add: emit_def)
    show ?thesis
    proof (cases r)
      case (Inl err)
      with Some False cc fr show ?thesis
        by (simp add: block_notification_def emit_def)
    next
      case (Inr creds')
      with cc have creds': "creds' = map (confirm_one e) (credits s)"
        using confirm_creds_result [of e "credits s" ?s1 creds'] by simp
      have run: "block_notification e s =
        (case ses_commit (\<lambda>d. d\<lparr>credits := creds'\<rparr>) s2 of
           (ok, s3) \<Rightarrow> update_balances e nfo
              (if ok then s3 else emit SesFlush (emit SesRollback (emit LogException s3))))"
        using Some False cc Inr
        by (simp add: block_notification_def Let_def emit_def split: prod.splits)
      show ?thesis
        unfolding run
        by (auto simp: update_balances_credits ses_commit_def emit_def fr creds'
            split: prod.splits list.splits if_splits)
    qed
  qed
qed

lemma block_notification_confirms:
  assumes info: "getinfo e = Some nfo" and newer: "lastblock s < info_blocks nfo"
    and answers: "\<forall>c\<in>set (credits s).
        c_transaction_state c = ''unconfirmed'' \<and> c_network c = NETWORK \<longrightarrow>
        gettransaction e (txid_of_ref (c_ref_id c)) \<noteq> None"
    and commit: "commit_succeeds s"
  shows "credits (snd (block_notification e s)) = map (confirm_one e) (credits s)"
proof -
  let ?s1 = "(emit RpcGetInfo s)\<lparr>lastblock := info_blocks nfo\<rparr>"
  obtain creds' where "fst (confirm_creds e (credits s) ?s1) = Inr creds'"
    using confirm_creds_answers [OF answers] by blast
  moreover obtain s2 where s2: "s2 = snd (confirm_creds e (credits s) ?s1)"
    by simp
  ultimately have cc: "confirm_creds e (credits s) ?s1 = (Inr creds', s2)"
    by (simp add: prod_eq_iff)
  have creds': "creds' = map (confirm_one e) (credits s)"
    using confirm_creds_result [of e "credits s" ?s1 creds'] cc by simp
  have "commit_outcomes s2 = commit_outcomes s"
    using confirm_creds_frame [of e "credits s" ?s1] s2 by (simp add: emit_def)
  then have co: "commit_succeeds s2"
    using commit by (simp add: commit_succeeds_def)
  have run: "block_notification e s =
      update_balances e nfo (emit (SesCommit True)
        (s2\<lparr>commit_outcomes := tl (commit_outcomes s2), credits := creds'\<rparr>))"
    using info newer cc
    by (simp add: block_notification_def Let_def emit_def ses_commit_ok [OF co])
  show ?thesis
    by (simp add: run update_balances_credits emit_def creds')
qed

lemma main_block: "main e [''block'', data] s = block_notification e s"
  by (simp add: main_def)

text \<open>
  Claim C4: on a block notification with a height above \<open>lastblock\<close>, when the daemon
  answers for the unconfirmed credits of this network and the commit succeeds, every
  such credit whose transaction has at least \<open>CONFS\<close> confirmations is complete
  afterwards (credits are identified by their position, the table keeps its length);
  and any later block notification, whatever the daemon says then, leaves that credit
  exactly as it is: the transition happens once.
\<close>

theorem block_completes_confirmed:
  assumes info: "getinfo e = Some nfo" and newer: "lastblock s < info_blocks nfo"
    and answers: "\<forall>c\<in>set (credits s).
        c_transaction_state c = ''unconfirmed'' \<and> c_network c = NETWORK \<longrightarrow>
        gettransaction e (txid_of_ref (c_ref_id c)) \<noteq> None"
    and commit: "commit_succeeds s"
    and k: "k < length (credits s)"
    and unconfirmed: "c_transaction_state (credits s ! k) = ''unconfirmed''"
    and network: "c_network (credits s ! k) = NETWORK"
    and t: "gettransaction e (txid_of_ref (c_ref_id (credits s ! k))) = Some t"
    and confs: "CONFS e \<le> txd_confirmations t"
  shows "length (credits (snd (main e [''block'', data] s))) = length (credits s) \<and>
         c_transaction_state (credits (snd (main e [''block'', data] s)) ! k) = ''complete'' \<and>
         credits (snd (main e' [''block'', data'] (snd (main e [''block'', data] s)))) ! k =
           credits (snd (main e [''block'', data] s)) ! k"
proof -
  let ?s' = "snd (block_notification e s)"
  have creds: "credits ?s' = map (confirm_one e) (credits s)"
    using info newer answers commit by (rule block_notification_confirms)
  have "confirm_one e (credits s ! k) = complete_cred t (credits s ! k)"
    using unconfirmed network t confs by (simp add: confirm_one_def selected_def)
  then have st: "c_transaction_state (credits ?s' ! k) = ''complete''"
    using k by (simp add: creds complete_cred_state)
  then have ns: "\<not> selected (credits ?s' ! k)"
    by (simp add: selected_def)
  have k': "k < length (credits ?s')"
    using k by (simp add: creds)
  have later: "credits (snd (block_notification e' ?s')) ! k = credits ?s' ! k"
    using block_notification_credits [of e' ?s'] k' ns
    by (auto simp: confirm_one_unselected)
  have len: "length (credits ?s') = length (credits s)"
    by (simp add: creds)
  show ?thesis
    unfolding main_block using len st later by blast
qed

text \<open>
  Claim C3 does not hold of the code: the inner loop assigns the reference id once per
  entry of the details, so every completed credit ends with the index of the last
  entry (see \<open>complete_cred_ref_id\<close>), not with its own. Transaction \<open>abc\<close> has two
  receive outputs; the credits \<open>abc:0\<close> and \<open>abc:1\<close> both become \<open>abc:1\<close>.
\<close>

theorem block_rewrites_ref_id_to_last_index:
  "map c_ref_id (credits ex_db_pending) = [''abc:0'', ''abc:1''] \<and>
   map c_ref_id (credits (snd (main ex_env [''block'', []] ex_db_pending))) = [''abc:1'', ''abc:1'']"
  by code_simp

text \<open>Claim C2 at the example store: after two calls for \<open>abc:0\<close> there is one credit.\<close>

theorem process_receive_idempotent_witness:
  "filter (\<lambda>c. c_ref_id c = ''abc:0'') (credits ex_db) = [] \<and>
   find (\<lambda>a. a_address a = put_address ex_put_recv) (addresses ex_db) \<noteq> None \<and>
   CURRENCIES ex_env \<noteq> [] \<and>
   distinct (map c_ref_id (credits ex_db)) \<and>
   length (filter (\<lambda>c. c_ref_id c = ''abc:0'')
     (credits (snd (process_receive ex_env ''abc:0'' ex_put_recv False ex_db)))) = 1 \<and>
   length (filter (\<lambda>c. c_ref_id c = ''abc:0'')
     (credits (snd (process_receive ex_env ''abc:0'' ex_put_recv False
        (snd (process_receive ex_env ''abc:0'' ex_put_recv False ex_db)))))) = 1"
proof -
  let ?s1 = "snd (process_receive ex_env ''abc:0'' ex_put_recv False ex_db)"
  have new: "filter (\<lambda>c. c_ref_id c = ''abc:0'') (credits ex_db) = []"
    and dist: "distinct (map c_ref_id (credits ex_db))"
    by (simp_all add: ex_db_def)
  have known: "find (\<lambda>a. a_address a = put_address ex_put_recv) (addresses ex_db) \<noteq> None"
    by (simp add: ex_db_def ex_put_recv_def)
  have cur: "CURRENCIES ex_env \<noteq> []"
    by (simp add: ex_env_def)
  note first = process_receive_idempotent [where e = ex_env and txid = "''abc:0''" and s = ex_db
      and details = ex_put_recv and confirmed = False and details' = ex_put_recv
      and confirmed' = False]
  from first new known cur
  have one: "length (filter (\<lambda>c. c_ref_id c = ''abc:0'') (credits ?s1)) = 1"
    by blast
  then have ex: "filter (\<lambda>c. c_ref_id c = ''abc:0'') (credits ?s1) \<noteq> []"
    by auto
  note second = process_receive_idempotent [where e = ex_env and txid = "''abc:0''" and s = ?s1
      and details = ex_put_recv and confirmed = False]
  from second ex
  have "process_receive ex_env ''abc:0'' ex_put_recv False ?s1 =
      (Inr (), emit (LogInfo ''txid already known. returning.'') ?s1)"
    by blast
  then have "credits (snd (process_receive ex_env ''abc:0'' ex_put_recv False ?s1)) = credits ?s1"
    by (simp add: emit_def)
  with new known cur dist one show ?thesis
    by simp
qed

lemma get_balance_ex_db: "get_balance ex_db = Inr (100, 100)"
  by (simp add: get_balance_def latest_ex_db) (simp add: ex_db_def)

lemma commit_succeeds_ex_db: "commit_succeeds ex_db"
  by (simp add: commit_succeeds_def ex_db_def)

text \<open>Claim C6 at the example store: a receive of 1.5 on a balance of (100, 100).\<close>

theorem process_receive_total_only_witness:
  "filter (\<lambda>c. c_ref_id c = ''abc:0'') (credits ex_db) = [] \<and>
   find (\<lambda>a. a_address a = put_address ex_put_recv) (addresses ex_db) =
     Some \<lparr>a_address = ''addr1'', a_user_id = 7\<rparr> \<and>
   fst (process_receive ex_env ''abc:0'' ex_put_recv False ex_db) = Inr () \<and>
   commit_succeeds ex_db \<and>
   get_balance ex_db = Inr (100, 100) \<and>
   get_balance (snd (process_receive ex_env ''abc:0'' ex_put_recv False ex_db)) =
     Inr (100 + 3 / 2, 100)"
proof -
  have new: "filter (\<lambda>c. c_ref_id c = ''abc:0'') (credits ex_db) = []"
    by (simp add: ex_db_def)
  have known: "find (\<lambda>a. a_address a = put_address ex_put_recv) (addresses ex_db) =
      Some \<lparr>a_address = ''addr1'', a_user_id = 7\<rparr>"
    by (simp add: ex_db_def ex_put_recv_def)
  have ok: "fst (process_receive ex_env ''abc:0'' ex_put_recv False ex_db) = Inr ()"
    by (simp add: process_receive_def adjust_hwbalance_def process_credit_def ses_commit_def
        emit_def Let_def ex_db_def ex_put_recv_def ex_env_def lower_NETWORK)
  have amt: "put_amount ex_put_recv = 3 / 2"
    by (simp add: ex_put_recv_def)
  from process_receive_total_only [OF new known ok commit_succeeds_ex_db]
  have "get_balance (snd (process_receive ex_env ''abc:0'' ex_put_recv False ex_db)) =
      Inr (100 + 3 / 2, 100)"
    by (simp add: get_balance_ex_db amt)
  with new known ok commit_succeeds_ex_db get_balance_ex_db show ?thesis
    by blast
qed

text \<open>
  Claim C8 at the example store: sending 150 with 100 available is passed to the daemon
  and leaves a balance of (-50, -50).
\<close>

theorem send_to_address_decrements_witness:
  "sendtoaddress ex_env ''dest'' 150 = Some ''f00d'' \<and> get_balance ex_db = Inr (100, 100) \<and>
   commit_succeeds ex_db \<and>
   fst (send_to_address ex_env ''dest'' 150 ex_db) = Inr ''f00d'' \<and>
   get_balance (snd (send_to_address ex_env ''dest'' 150 ex_db)) = Inr (- 50, - 50)"
proof -
  have sent: "sendtoaddress ex_env ''dest'' 150 = Some ''f00d''"
    by (simp add: ex_env_def)
  from send_to_address_decrements [where e = ex_env and address = "''dest''" and amount = 150
      and s = ex_db and txid = "''f00d''" and t = 100 and a = 100]
    sent get_balance_ex_db commit_succeeds_ex_db
  have "fst (send_to_address ex_env ''dest'' 150 ex_db) = Inr ''f00d'' \<and>
      get_balance (snd (send_to_address ex_env ''dest'' 150 ex_db)) = Inr (100 - 150, 100 - 150)"
    by blast
  with sent get_balance_ex_db commit_succeeds_ex_db show ?thesis
    by simp
qed

lemma ex_refs:
  "ref_of ''abc'' 0 = ''abc:0''" "ref_of ''abc'' 1 = ''abc:1''" "ref_of ''abc'' (Suc 0) = ''abc:1''"
  by code_simp+

text \<open>Claim C4 at the example store with the two unconfirmed credits of \<open>abc\<close>.\<close>

theorem block_completes_confirmed_witness:
  "getinfo ex_env = Some \<lparr>info_blocks = 10, info_balance = 100\<rparr> \<and>
   lastblock ex_db_pending < 10 \<and>
   commit_succeeds ex_db_pending \<and>
   c_transaction_state (credits ex_db_pending ! 0) = ''unconfirmed'' \<and>
   c_network (credits ex_db_pending ! 0) = NETWORK \<and>
   gettransaction ex_env (txid_of_ref (c_ref_id (credits ex_db_pending ! 0))) = Some ex_txd \<and>
   CONFS ex_env \<le> txd_confirmations ex_txd \<and>
   c_transaction_state (credits (snd (main ex_env [''block'', []] ex_db_pending)) ! 0) = ''complete''"
proof -
  have info: "getinfo ex_env = Some \<lparr>info_blocks = 10, info_balance = 100\<rparr>"
    by (simp add: ex_env_def)
  have newer: "lastblock ex_db_pending < info_blocks \<lparr>info_blocks = 10, info_balance = 100\<rparr>"
    by (simp add: ex_db_pending_def ex_db_def)
  have txids: "txid_of_ref ''abc:0'' = ''abc''" "txid_of_ref ''abc:1'' = ''abc''"
    by (simp_all add: txid_of_ref_def)
  have answers: "\<forall>c\<in>set (credits ex_db_pending).
      c_transaction_state c = ''unconfirmed'' \<and> c_network c = NETWORK \<longrightarrow>
      gettransaction ex_env (txid_of_ref (c_ref_id c)) \<noteq> None"
    by (simp add: ex_db_pending_def ex_cred_def ex_refs txids ex_env_def)
  have commit: "commit_succeeds ex_db_pending"
    by (simp add: commit_succeeds_def ex_db_pending_def ex_db_def)
  have k: "0 < length (credits ex_db_pending)"
    by (simp add: ex_db_pending_def)
  have unconfirmed: "c_transaction_state (credits ex_db_pending ! 0) = ''unconfirmed''"
    and network: "c_network (credits ex_db_pending ! 0) = NETWORK"
    by (simp_all add: ex_db_pending_def ex_cred_def NETWORK_def)
  have t: "gettransaction ex_env (txid_of_ref (c_ref_id (credits ex_db_pending ! 0))) = Some ex_txd"
    by (simp add: ex_db_pending_def ex_cred_def ex_refs txids ex_env_def)
  have confs: "CONFS ex_env \<le> txd_confirmations ex_txd"
    by (simp add: ex_env_def ex_txd_def)
  from block_completes_confirmed [OF info newer answers commit k unconfirmed network t confs,
      of "[]" ex_env "[]"]
  have "c_transaction_state (credits (snd (main ex_env [''block'', []] ex_db_pending)) ! 0) =
      ''complete''"
    by blast
  with info newer commit unconfirmed network t confs show ?thesis
    by simp
qed

end
